theory Spec2Isabelle
  imports Complex_Main "HOL-Library.AList" "HOL-Library.Char_ord" "HOL-Library.List_Lexorder"
begin

section \<open>Constants of models/framework.py\<close>

definition EVAL_FREQUENCY :: int where
  "EVAL_FREQUENCY = 5000"

definition GENERATE_FREQUENCY :: int where
  "GENERATE_FREQUENCY = 100000"

definition GENERATE_NUM_SAMPLES :: nat where
  "GENERATE_NUM_SAMPLES = 2"

definition LOG_FREQUENCY :: int where
  "LOG_FREQUENCY = 10"

definition MAX_FIRST_ITERATION_DELAY :: nat where
  "MAX_FIRST_ITERATION_DELAY = 600"

definition MAX_TRAINING_ITERATION_DELAY :: nat where
  "MAX_TRAINING_ITERATION_DELAY = 60"

section \<open>Data model\<close>

text \<open>
  A Python float is a real number or NaN: the only property of floating point the framework
  inspects is \<open>math.isnan\<close> / \<open>torch.isnan\<close>. Rounding is not modelled.
\<close>

datatype fl = Finite real | NaN

fun isnan :: "fl \<Rightarrow> bool" where
  "isnan NaN = True"
| "isnan (Finite x) = False"

fun the_real :: "fl \<Rightarrow> real" where
  "the_real (Finite x) = x"
| "the_real NaN = 0"

datatype device = CPU | CUDA

text \<open>The contents of a tensor (its shape is not modelled) and a tensor on its device.\<close>

datatype data = Floats "fl list" | Ints "int list"

datatype tensor = Tensor device data

fun cpu :: "tensor \<Rightarrow> tensor" where
  "cpu (Tensor d x) = Tensor CPU x"

fun cuda :: "tensor \<Rightarrow> tensor" where
  "cuda (Tensor d x) = Tensor CUDA x"

fun any_isnan :: "tensor \<Rightarrow> bool" where
  "any_isnan (Tensor d (Floats xs)) = (\<exists>x \<in> set xs. isnan x)"
| "any_isnan (Tensor d (Ints ns)) = False"

text \<open>
  What a state\_dict or a checkpoint is made of: tensors, dicts (association lists in
  insertion order, keyed by the printed key), lists, \<open>None\<close> and any other value.
\<close>

datatype item =
    T tensor
  | Dict "(string \<times> item) list"
  | ListI "item list"
  | NoneV
  | Other string

datatype error =
    RuntimeError | StopIteration | KeyError | AssertionError | TypeError | AttributeError
  | FileNotFoundError

text \<open>
  How the process ends other than by returning: \<open>hard_exit(code)\<close>, an uncaught exception,
  or \<open>Stalled\<close>: \<open>next(train_iterator)\<close> never returns, so that the alarm armed at the top of
  the iteration fires and \<open>training_iteration_took_too_long\<close> calls \<open>hard_exit(1)\<close>.
\<close>

datatype stop = HardExit nat | Uncaught error | Stalled

fun exit_status :: "stop \<Rightarrow> nat" where
  "exit_status (HardExit code) = code"
| "exit_status (Uncaught e) = 1"
| "exit_status Stalled = 1"

type_synonym batch = "tensor \<times> tensor"

type_synonym entries = "(string \<times> item) list"

text \<open>
  The part of a model its subclass owns: the named parameters and buffers other than the
  step counter, and what \<open>get_optimizers()\<close> returns, each optimizer and scheduler
  by its state\_dict (\<open>None\<close> where an optimizer has no scheduler).
\<close>

type_synonym learned = "(string \<times> data) list \<times> (entries \<times> entries option) list"

record vocoder =
  global_step_buffer :: int
  training :: bool
  device :: device
  parameters :: "(string \<times> data) list"
  optimizers :: "(entries \<times> entries option) list"

text \<open>
  The methods a Vocoder subclass implements, and the environment of a run.
  \<open>train_step\<close> reads the model and returns the loss, the losses to log and the new
  subclass-owned state; the step counter is written through the \<open>global_step\<close> setter only.
  A DataLoader is the list of its batches, the same at every pass.
\<close>

record env =
  cuda_is_available :: bool
  is_done :: "vocoder \<Rightarrow> bool"
  train_step :: "vocoder \<Rightarrow> tensor \<Rightarrow> tensor \<Rightarrow> (fl \<times> (string \<times> fl) list) \<times> learned"
  validation_losses :: "vocoder \<Rightarrow> tensor \<Rightarrow> tensor \<Rightarrow> (string \<times> fl) list"
  generate :: "vocoder \<Rightarrow> tensor \<Rightarrow> tensor"
  train_set :: "batch list"
  valid_set :: "batch list"

text \<open>Records of the SummaryWriter: \<open>add_scalar\<close> and \<open>add_audio\<close> with tag, value and step.\<close>

datatype summary = Scalar string fl int | Audio string tensor int

text \<open>
  The state of a run: the model, the writer's records, the lines printed (the lines that
  show times or losses are left out), the checkpoint directory (\<open>None\<close> when it does not
  exist; files by name) with the names passed to \<open>torch.save\<close> in order, the calls of
  \<open>signal.alarm\<close>, and the locals of \<open>train_loop\<close>. \<open>train_calls\<close> lists the calls of
  \<open>model.train_step\<close>: the value of the step counter at the call and the batch passed.
\<close>

record state =
  model :: vocoder
  writer :: "summary list"
  stdout :: "string list"
  files :: "(string \<times> item) list option"
  saves :: "string list"
  alarms :: "nat list"
  train_iterator :: "batch list"
  total_start_time :: bool
  num_iterations :: nat
  train_calls :: "(int \<times> batch) list"

section \<open>The step counter\<close>

definition global_step :: "vocoder \<Rightarrow> int" where
  "global_step m = global_step_buffer m"

text \<open>
  The setter fills an int32 buffer: \<open>fill_\<close> raises RuntimeError for a value that does
  not fit.
\<close>

definition set_global_step :: "vocoder \<Rightarrow> int \<Rightarrow> error + vocoder" where
  "set_global_step m v =
     (if - (2 ^ 31) \<le> v \<and> v < 2 ^ 31 then Inr (m\<lparr>global_step_buffer := v\<rparr>)
      else Inl RuntimeError)"

section \<open>Formatting\<close>

definition digit_char :: "nat \<Rightarrow> char" where
  "digit_char d = ''0123456789'' ! d"

text \<open>The decimal digits of an integer that is not negative.\<close>

function decimal :: "int \<Rightarrow> string" where
  "decimal n =
     (if n < 10 then [digit_char (nat n)]
      else decimal (n div 10) @ [digit_char (nat (n mod 10))])"
  by pat_completeness auto
termination
  by (relation "measure nat") auto

declare decimal.simps [simp del]

definition zero_pad :: "nat \<Rightarrow> string \<Rightarrow> string" where
  "zero_pad w s = replicate (w - length s) (CHR ''0'') @ s"

text \<open>The format \<open>{n:08d}\<close>: at least 8 characters, the sign first.\<close>

definition format_08d :: "int \<Rightarrow> string" where
  "format_08d n =
     (if n < 0 then CHR ''-'' # zero_pad 7 (decimal (- n))
      else zero_pad 8 (decimal n))"

definition checkpoint_name :: "int \<Rightarrow> string" where
  "checkpoint_name step = format_08d step @ ''.ckpt''"

text \<open>Reading a string of digits back, to tell the names of checkpoints apart.\<close>

definition digit_value :: "char \<Rightarrow> int" where
  "digit_value c = int (of_char c) - 48"

definition number_of :: "string \<Rightarrow> int" where
  "number_of s = foldl (\<lambda>acc c. 10 * acc + digit_value c) 0 s"

definition is_digit :: "char \<Rightarrow> bool" where
  "is_digit c = (c \<in> set ''0123456789'')"

section \<open>Saving a checkpoint\<close>

text \<open>
  \<open>model.state_dict()\<close>: the step counter, a registered buffer, and the parameters, all on
  the device of the model.
\<close>

definition state_dict :: "vocoder \<Rightarrow> entries" where
  "state_dict m =
     (''global_step_buffer'', T (Tensor (device m) (Ints [global_step_buffer m])))
       # map (\<lambda>(k, x). (k, T (Tensor (device m) x))) (parameters m)"

primrec move_state_dict_to_device :: "item \<Rightarrow> bool \<Rightarrow> item" where
  "move_state_dict_to_device (T t) to_cpu = T (if to_cpu then cpu t else cuda t)"
| "move_state_dict_to_device (Dict kvs) to_cpu =
     Dict (map (map_prod id (\<lambda>v. move_state_dict_to_device v to_cpu)) kvs)"
| "move_state_dict_to_device (ListI vs) to_cpu =
     ListI (map (\<lambda>v. move_state_dict_to_device v to_cpu) vs)"
| "move_state_dict_to_device NoneV to_cpu = NoneV"
| "move_state_dict_to_device (Other x) to_cpu = Other x"

text \<open>\<open>os.makedirs(checkpoint_dir, exist_ok=True)\<close> and \<open>torch.save(obj, path)\<close>.\<close>

definition torch_save :: "item \<Rightarrow> string \<Rightarrow> state \<Rightarrow> state" where
  "torch_save obj name st =
     st\<lparr>files := Some (AList.update name obj (case files st of None \<Rightarrow> [] | Some fs \<Rightarrow> fs)),
        saves := saves st @ [name]\<rparr>"

definition checkpoint_of :: "vocoder \<Rightarrow> item" where
  "checkpoint_of m =
     (let optimizers_list = map (\<lambda>(opt, sched). Dict opt) (optimizers m);
          schedulers = map (\<lambda>(opt, sched). case sched of None \<Rightarrow> NoneV | Some s \<Rightarrow> Dict s)
                         (optimizers m);
          checkpoint = Dict [(''model'', Dict (state_dict m)),
                             (''optimizers'', ListI optimizers_list),
                             (''lr_schedulers'', ListI schedulers)]
      in move_state_dict_to_device checkpoint True)"

definition save_model :: "state \<Rightarrow> state" where
  "save_model st =
     torch_save (checkpoint_of (model st)) (checkpoint_name (global_step (model st))) st"

section \<open>Validation metrics\<close>

definition to_device :: "env \<Rightarrow> tensor \<Rightarrow> tensor" where
  "to_device e t = (if cuda_is_available e then cuda t else t)"

text \<open>\<open>torch.mean(torch.stack(key_losses))\<close>: NaN as soon as one value is.\<close>

definition mean :: "fl list \<Rightarrow> fl" where
  "mean vs =
     (if \<exists>v \<in> set vs. isnan v then NaN
      else Finite (sum_list (map the_real vs) / real (length vs)))"

text \<open>\<open>[batch_losses[key] for batch_losses in losses]\<close>: KeyError where a batch misses the key.\<close>

fun key_losses :: "string \<Rightarrow> (string \<times> fl) list list \<Rightarrow> fl list option" where
  "key_losses key [] = Some []"
| "key_losses key (batch_losses # losses) =
     (case map_of batch_losses key of
        None \<Rightarrow> None
      | Some v \<Rightarrow> (case key_losses key losses of None \<Rightarrow> None | Some vs \<Rightarrow> Some (v # vs)))"

fun emit_means ::
  "string list \<Rightarrow> (string \<times> fl) list list \<Rightarrow> int \<Rightarrow> summary list \<Rightarrow> error option \<times> summary list"
where
  "emit_means [] losses step w = (None, w)"
| "emit_means (key # keys) losses step w =
     (case key_losses key losses of
        None \<Rightarrow> (Some KeyError, w)
      | Some vs \<Rightarrow> emit_means keys losses step (w @ [Scalar (''valid/'' @ key) (mean vs) step]))"

definition sorted_keys :: "(string \<times> 'v) list \<Rightarrow> string list" where
  "sorted_keys d = sort (remdups (map fst d))"

text \<open>Lines 656 to 659: the losses of one batch, moved to the GPU first when there is one.\<close>

definition batch_losses :: "env \<Rightarrow> vocoder \<Rightarrow> batch \<Rightarrow> (string \<times> fl) list" where
  "batch_losses e m b = validation_losses e m (to_device e (fst b)) (to_device e (snd b))"

definition compute_validation_metrics :: "env \<Rightarrow> batch list \<Rightarrow> state \<Rightarrow> (stop \<times> state) + state" where
  "compute_validation_metrics e dataloader st =
     (let st = st\<lparr>stdout := stdout st @ [''Computing validation loss...'']\<rparr>;
          losses = map (batch_losses e (model st)) dataloader
      in case losses of
           [] \<Rightarrow> Inr (st\<lparr>stdout := stdout st @ [''No validation data available!'']\<rparr>)
         | first # _ \<Rightarrow>
             (case emit_means (sorted_keys first) losses (global_step (model st)) (writer st) of
                (None, w) \<Rightarrow> Inr (st\<lparr>writer := w\<rparr>)
              | (Some err, w) \<Rightarrow> Inl (Uncaught err, st\<lparr>writer := w\<rparr>)))"

section \<open>Samples for Tensorboard\<close>

fun write_samples :: "int \<Rightarrow> nat \<Rightarrow> (batch \<times> tensor) list \<Rightarrow> summary list" where
  "write_samples step idx [] = []"
| "write_samples step idx (((spec, wav_real), wav) # rest) =
     (if step = 0 then [Audio (''audio/'' @ decimal (int idx) @ ''_real'') wav_real step] else [])
     @ [Audio (''audio/'' @ decimal (int idx) @ ''_synthesized'') wav step]
     @ write_samples step (Suc idx) rest"

definition generate_tensorboard_samples ::
  "env \<Rightarrow> batch list \<Rightarrow> nat \<Rightarrow> state \<Rightarrow> (stop \<times> state) + state"
where
  "generate_tensorboard_samples e dataloader n_samples st =
     (if length dataloader < n_samples then Inl (Uncaught StopIteration, st)
      else
        let data = take n_samples dataloader;
            wavs = map (\<lambda>(spec, wav). generate e (model st) spec) data
        in Inr (st\<lparr>writer := writer st @ write_samples (global_step (model st)) 0 (zip data wavs)\<rparr>))"

section \<open>The training loop\<close>

definition and_then :: "'e + 'a \<Rightarrow> ('a \<Rightarrow> 'e + 'b) \<Rightarrow> 'e + 'b" where
  "and_then r f = (case r of Inl x \<Rightarrow> Inl x | Inr a \<Rightarrow> f a)"

text \<open>
  \<open>next(train_iterator)\<close> on \<open>repeat_training_data_forever()\<close>. \<open>train_iterator\<close> holds what
  the current pass over \<open>train_set\<close> has left. When the pass is exhausted the generator prints
  and starts the next pass; over an empty \<open>train_set\<close> it never yields (\<open>None\<close>).
\<close>

definition next_batch :: "env \<Rightarrow> state \<Rightarrow> (batch \<times> state) option" where
  "next_batch e st =
     (case train_iterator st of
        b # rest \<Rightarrow> Some (b, st\<lparr>train_iterator := rest\<rparr>)
      | [] \<Rightarrow>
          (case train_set e of
             [] \<Rightarrow> None
           | b # rest \<Rightarrow>
               Some (b, st\<lparr>train_iterator := rest, stdout := stdout st @ [''Completed epoch.'']\<rparr>)))"

text \<open>Lines 417 to 431: arm the alarm, draw a batch, move it to the GPU.\<close>

definition train_loop_fetch :: "env \<Rightarrow> state \<Rightarrow> (stop \<times> state) + (batch \<times> state)" where
  "train_loop_fetch e st =
     (let st = st\<lparr>alarms := alarms st @
                 [if total_start_time st then MAX_TRAINING_ITERATION_DELAY
                  else MAX_FIRST_ITERATION_DELAY]\<rparr>
      in case next_batch e st of
           None \<Rightarrow> Inl (Stalled, st)
         | Some ((spectrograms, waveforms), st) \<Rightarrow>
             Inr ((to_device e spectrograms, to_device e waveforms), st))"

text \<open>Lines 432 to 454: the train step, the two counters, \<open>signal.alarm(0)\<close>.\<close>

definition train_loop_step ::
  "env \<Rightarrow> batch \<Rightarrow> state \<Rightarrow> (stop \<times> state) + ((fl \<times> (string \<times> fl) list) \<times> state)"
where
  "train_loop_step e b st =
     (let (result, learned) = train_step e (model st) (fst b) (snd b);
          m = (model st)\<lparr>parameters := fst learned, optimizers := snd learned\<rparr>;
          st = st\<lparr>model := m,
                  train_calls := train_calls st @ [(global_step (model st), b)],
                  num_iterations := num_iterations st + 1\<rparr>
      in case set_global_step m (global_step m + 1) of
           Inl err \<Rightarrow> Inl (Uncaught err, st)
         | Inr m \<Rightarrow>
             Inr (result, st\<lparr>model := m, total_start_time := True, alarms := alarms st @ [0]\<rparr>))"

text \<open>Lines 456 to 459.\<close>

definition train_loop_log :: "fl \<Rightarrow> (string \<times> fl) list \<Rightarrow> state \<Rightarrow> state" where
  "train_loop_log print_loss tb_logs st =
     (let step = global_step (model st)
      in if step mod LOG_FREQUENCY = 0
         then st\<lparr>writer := writer st @ Scalar ''train/loss'' print_loss step
                   # map (\<lambda>(key, val). Scalar (''train/'' @ key) val step) tb_logs\<rparr>
         else st)"

text \<open>Lines 461 to 463.\<close>

definition train_loop_nan :: "fl \<Rightarrow> state \<Rightarrow> (stop \<times> state) + state" where
  "train_loop_nan print_loss st =
     (if isnan print_loss
      then Inl (HardExit 1, st\<lparr>stdout := stdout st @ [''Detected NaN loss. Exiting!'']\<rparr>)
      else Inr st)"

text \<open>Lines 465 to 471: \<open>model.eval()\<close>, the validation metrics, \<open>model.train()\<close>, the save.\<close>

definition train_loop_eval :: "env \<Rightarrow> state \<Rightarrow> (stop \<times> state) + state" where
  "train_loop_eval e st =
     (if global_step (model st) mod EVAL_FREQUENCY = 0
      then and_then
             (compute_validation_metrics e (valid_set e)
                (st\<lparr>model := (model st)\<lparr>training := False\<rparr>\<rparr>))
             (\<lambda>st. Inr (save_model (st\<lparr>model := (model st)\<lparr>training := True\<rparr>\<rparr>)))
      else Inr st)"

text \<open>Lines 473 and 474.\<close>

definition train_loop_generate :: "env \<Rightarrow> state \<Rightarrow> (stop \<times> state) + state" where
  "train_loop_generate e st =
     (if global_step (model st) mod GENERATE_FREQUENCY = 0
      then generate_tensorboard_samples e (valid_set e) GENERATE_NUM_SAMPLES st
      else Inr st)"

text \<open>One iteration of the \<open>while\<close> loop of \<open>train_loop\<close>.\<close>

definition train_loop_body :: "env \<Rightarrow> state \<Rightarrow> (stop \<times> state) + state" where
  "train_loop_body e st =
     and_then (train_loop_fetch e st) (\<lambda>(b, st).
     and_then (train_loop_step e b st) (\<lambda>((loss, tb_logs), st).
     and_then (train_loop_nan loss (train_loop_log loss tb_logs st)) (\<lambda>st.
     and_then (train_loop_eval e st) (train_loop_generate e))))"

text \<open>
  The loop may run forever (\<open>is_done\<close> is the model's), so it takes fuel, the number of
  iterations it may still start: \<open>Running\<close> when the fuel is used up, after that many
  completed iterations.
\<close>

datatype outcome = Returned | Stopped stop | Running

fun train_while :: "env \<Rightarrow> nat \<Rightarrow> state \<Rightarrow> outcome \<times> state" where
  "train_while e 0 st = (Running, st)"
| "train_while e (Suc fuel) st =
     (if is_done e (model st) then (Returned, st)
      else case train_loop_body e st of
             Inl (s, st') \<Rightarrow> (Stopped s, st')
           | Inr st' \<Rightarrow> train_while e fuel st')"

definition train_loop :: "env \<Rightarrow> nat \<Rightarrow> state \<Rightarrow> outcome \<times> state" where
  "train_loop e fuel st =
     (let st = (if cuda_is_available e
                then st\<lparr>model := (model st)\<lparr>device := CUDA\<rparr>,
                        stdout := stdout st @ [''Moved model to GPU.'']\<rparr>
                else st\<lparr>stdout := stdout st @
                  [''WARNING: No GPU detected, running on CPU. Training may be very slow.'']\<rparr>);
          st = st\<lparr>train_iterator := train_set e, total_start_time := False, num_iterations := 0\<rparr>
      in case train_while e fuel st of
           (Returned, st) \<Rightarrow>
             (Returned, save_model (st\<lparr>stdout := stdout st @ [''Completed training.'']\<rparr>))
         | r \<Rightarrow> r)"

section \<open>Loading a checkpoint\<close>

definition torch_load :: "string \<Rightarrow> state \<Rightarrow> error + item" where
  "torch_load name st =
     (case files st of
        None \<Rightarrow> Inl FileNotFoundError
      | Some fs \<Rightarrow> (case map_of fs name of None \<Rightarrow> Inl FileNotFoundError | Some c \<Rightarrow> Inr c))"

text \<open>\<open>checkpoint[key]\<close>.\<close>

fun getitem :: "item \<Rightarrow> string \<Rightarrow> error + item" where
  "getitem (Dict kvs) key = (case map_of kvs key of None \<Rightarrow> Inl KeyError | Some v \<Rightarrow> Inr v)"
| "getitem other key = Inl TypeError"

text \<open>\<open>.items()\<close> of the model's entry.\<close>

fun items :: "item \<Rightarrow> error + entries" where
  "items (Dict kvs) = Inr kvs"
| "items other = Inl AttributeError"

fun has_nan :: "item \<Rightarrow> bool" where
  "has_nan (T t) = any_isnan t"
| "has_nan other = False"

text \<open>
  What \<open>zip\<close> iterates: the elements of a list, the keys of a dict; \<open>None\<close> is not iterable,
  and neither is any other value taken to be.
\<close>

fun iter :: "item \<Rightarrow> error + item list" where
  "iter (ListI vs) = Inr vs"
| "iter (Dict kvs) = Inr (map (\<lambda>(k, v). Other k) kvs)"
| "iter other = Inl TypeError"

text \<open>
  \<open>Module.load_state_dict\<close> of torch with its default \<open>strict=True\<close>, as far as the
  checkpoints need it: RuntimeError for a missing or an unexpected key and for an entry that
  is not a tensor; the values are copied into the tensors of the model, which stay on its
  device. The step counter is read from a one-element integer tensor.
\<close>

fun copy_parameters :: "(string \<times> data) list \<Rightarrow> entries \<Rightarrow> (string \<times> data) list option" where
  "copy_parameters [] sd = Some []"
| "copy_parameters ((k, x) # ps) sd =
     (case map_of sd k of
        Some (T (Tensor d y)) \<Rightarrow>
          (case copy_parameters ps sd of None \<Rightarrow> None | Some r \<Rightarrow> Some ((k, y) # r))
      | _ \<Rightarrow> None)"

definition load_state_dict :: "vocoder \<Rightarrow> entries \<Rightarrow> error + vocoder" where
  "load_state_dict m sd =
     (if set (map fst sd) \<noteq> set (map fst (state_dict m)) then Inl RuntimeError
      else case map_of sd ''global_step_buffer'' of
             Some (T (Tensor d (Ints [n]))) \<Rightarrow>
               (case copy_parameters (parameters m) sd of
                  None \<Rightarrow> Inl RuntimeError
                | Some ps \<Rightarrow> Inr (m\<lparr>global_step_buffer := n, parameters := ps\<rparr>))
           | _ \<Rightarrow> Inl RuntimeError)"

text \<open>
  The loop over \<open>zip(model.get_optimizers(), checkpoint["optimizers"],
  checkpoint["lr_schedulers"])\<close>: \<open>zip\<close> stops with the shortest of the three. An optimizer
  or scheduler loads a dict (\<open>load_state_dict\<close> raises on anything else, TypeError here).
\<close>

fun load_optimizers ::
  "(entries \<times> entries option) list \<Rightarrow> item list \<Rightarrow> item list
     \<Rightarrow> error + (entries \<times> entries option) list"
where
  "load_optimizers ((opt, sched) # rest) (opt_dict # opt_dicts) (sched_dict # sched_dicts) =
     (case opt_dict of
        Dict od \<Rightarrow>
          (case sched of
             None \<Rightarrow>
               and_then (load_optimizers rest opt_dicts sched_dicts) (\<lambda>r. Inr ((od, None) # r))
           | Some s \<Rightarrow>
               (case sched_dict of
                  Dict sd \<Rightarrow>
                    and_then (load_optimizers rest opt_dicts sched_dicts)
                      (\<lambda>r. Inr ((od, Some sd) # r))
                | _ \<Rightarrow> Inl TypeError))
      | _ \<Rightarrow> Inl TypeError)"
| "load_optimizers opts opt_dicts sched_dicts = Inr opts"

definition restore :: "env \<Rightarrow> vocoder \<Rightarrow> item \<Rightarrow> error + vocoder" where
  "restore e m loaded =
     (let checkpoint = (if cuda_is_available e then move_state_dict_to_device loaded False
                        else loaded)
      in and_then (getitem checkpoint ''model'') (\<lambda>model_entry.
         and_then (items model_entry) (\<lambda>sd.
         if \<exists>(key, tensor) \<in> set sd. has_nan tensor then Inl AssertionError
         else
         and_then (load_state_dict m sd) (\<lambda>m.
         and_then (getitem checkpoint ''optimizers'') (\<lambda>opt_entry.
         and_then (getitem checkpoint ''lr_schedulers'') (\<lambda>sched_entry.
         and_then (iter opt_entry) (\<lambda>opt_dicts.
         and_then (iter sched_entry) (\<lambda>sched_dicts.
         and_then (load_optimizers (optimizers m) opt_dicts sched_dicts) (\<lambda>opts.
         Inr (m\<lparr>optimizers := opts\<rparr>))))))))))"

text \<open>A failed load ends the process with the exception; the state is the one before it.\<close>

definition load_model_from_checkpoint :: "env \<Rightarrow> string \<Rightarrow> state \<Rightarrow> (stop \<times> state) + state" where
  "load_model_from_checkpoint e checkpoint_path st =
     (let st = st\<lparr>stdout := stdout st @ [''Loading model from checkpoint: '' @ checkpoint_path]\<rparr>
      in case and_then (torch_load checkpoint_path st) (restore e (model st)) of
           Inl err \<Rightarrow> Inl (Uncaught err, st)
         | Inr m \<Rightarrow> Inr (st\<lparr>model := m\<rparr>))"

text \<open>The entries of a dict, and whether an item is one.\<close>

fun is_dict :: "item \<Rightarrow> bool" where
  "is_dict (Dict kvs) = True"
| "is_dict other = False"

fun entries_of :: "item \<Rightarrow> entries" where
  "entries_of (Dict kvs) = kvs"
| "entries_of other = []"

text \<open>
  What a state comes back as: moved to the CPU by the save and, where there is a GPU, to the
  GPU by the load.
\<close>

definition reloaded :: "env \<Rightarrow> item \<Rightarrow> item" where
  "reloaded e v =
     (if cuda_is_available e
      then move_state_dict_to_device (move_state_dict_to_device v True) False
      else move_state_dict_to_device v True)"

section \<open>The latest checkpoint\<close>

text \<open>
  The pattern \<open>*.ckpt\<close> of \<open>glob\<close>: the name ends with \<open>.ckpt\<close> and does not start with a
  dot. Paths are file names in the checkpoint directory: the names passed to \<open>sorted\<close> share
  the directory as a prefix, so they sort as the file names do.
\<close>

definition matches_ckpt :: "string \<Rightarrow> bool" where
  "matches_ckpt name =
     (5 \<le> length name \<and> drop (length name - 5) name = ''.ckpt'' \<and> hd name \<noteq> CHR ''.'')"

definition last_checkpoint_path :: "(string \<times> item) list option \<Rightarrow> string option" where
  "last_checkpoint_path dir =
     (let checkpoint_paths =
            sort (filter matches_ckpt (case dir of None \<Rightarrow> [] | Some fs \<Rightarrow> map fst fs))
      in if checkpoint_paths \<noteq> [] then Some (last checkpoint_paths) else None)"

section \<open>Observations on a run\<close>

text \<open>The number of lap notices printed so far, and a batch as the train step receives it.\<close>

definition laps :: "state \<Rightarrow> nat" where
  "laps st = length (filter (\<lambda>line. line = ''Completed epoch.'') (stdout st))"

definition moved :: "env \<Rightarrow> batch \<Rightarrow> batch" where
  "moved e b = (to_device e (fst b), to_device e (snd b))"

text \<open>A ground-truth record of the sample generator: an audio record tagged \<open>..._real\<close>.\<close>

fun is_ground_truth :: "summary \<Rightarrow> bool" where
  "is_ground_truth (Audio tag wav step) = (5 \<le> length tag \<and> drop (length tag - 5) tag = ''_real'')"
| "is_ground_truth (Scalar tag v step) = False"

section \<open>A small run\<close>

text \<open>A model, its methods and a state to run the definitions on.\<close>

definition batch_of :: "real \<Rightarrow> batch" where
  "batch_of x = (Tensor CPU (Floats [Finite x]), Tensor CPU (Floats [Finite (x + 1)]))"

definition demo_model :: vocoder where
  "demo_model = \<lparr>global_step_buffer = 0, training = True, device = CPU,
     parameters = [(''weight'', Floats [Finite 1])],
     optimizers = [([(''lr'', Other ''0.1'')], None)]\<rparr>"

definition demo_env :: env where
  "demo_env = \<lparr>cuda_is_available = False,
     is_done = (\<lambda>m. 3 \<le> global_step m),
     train_step = (\<lambda>m spec wav. ((Finite 1, [(''l1'', Finite 2)]), (parameters m, optimizers m))),
     validation_losses = (\<lambda>m spec wav. [(''b'', Finite 2), (''a'', Finite 1)]),
     generate = (\<lambda>m spec. spec),
     train_set = [batch_of 0, batch_of 10],
     valid_set = [batch_of 20, batch_of 30]\<rparr>"

definition demo_state :: state where
  "demo_state = \<lparr>model = demo_model, writer = [], stdout = [], files = None, saves = [],
     alarms = [], train_iterator = [], total_start_time = False, num_iterations = 0,
     train_calls = []\<rparr>"


text \<open>A model whose train step returns a NaN loss, and a state in the middle of a run.\<close>

definition nan_env :: env where
  "nan_env = demo_env\<lparr>is_done := (\<lambda>m. False), train_step :=
     (\<lambda>m spec wav. ((NaN, [(''l1'', Finite 2)]), (parameters m, optimizers m)))\<rparr>"

definition state_at :: "int \<Rightarrow> state" where
  "state_at n = demo_state\<lparr>model := demo_model\<lparr>global_step_buffer := n\<rparr>,
     train_iterator := [batch_of 0]\<rparr>"

text \<open>A model that is never done, on a training set of three batches.\<close>

definition lap_env :: env where
  "lap_env = demo_env\<lparr>is_done := (\<lambda>m. False),
     train_set := [batch_of 0, batch_of 1, batch_of 2]\<rparr>"


text \<open>The state after saving the model at each of the given steps in turn.\<close>

definition saved_at :: "int list \<Rightarrow> state" where
  "saved_at steps =
     fold (\<lambda>n st. save_model (st\<lparr>model := (model st)\<lparr>global_step_buffer := n\<rparr>\<rparr>))
       steps demo_state"


text \<open>A model with two optimizers, beside the checkpoint of the model with one.\<close>

definition two_optimizers :: vocoder where
  "two_optimizers = demo_model\<lparr>optimizers :=
     [([(''lr'', Other ''0.5'')], None), ([(''lr'', Other ''0.7'')], Some [(''last_epoch'', Other ''3'')])]\<rparr>"



section \<open>The phases of an iteration\<close>

lemma and_then_Inr: "and_then r f = Inr y \<longleftrightarrow> (\<exists>a. r = Inr a \<and> f a = Inr y)"
  by (cases r) (simp_all add: and_then_def)

lemma and_then_Inl: "and_then r f = Inl x \<longleftrightarrow> r = Inl x \<or> (\<exists>a. r = Inr a \<and> f a = Inl x)"
  by (cases r) (auto simp add: and_then_def)

lemma save_model_fields:
  "model (save_model st) = model st"
  "writer (save_model st) = writer st"
  "stdout (save_model st) = stdout st"
  "alarms (save_model st) = alarms st"
  "train_iterator (save_model st) = train_iterator st"
  "total_start_time (save_model st) = total_start_time st"
  "num_iterations (save_model st) = num_iterations st"
  "train_calls (save_model st) = train_calls st"
  "saves (save_model st) = saves st @ [checkpoint_name (global_step (model st))]"
  by (simp_all add: save_model_def torch_save_def)

lemma compute_validation_metrics_frame:
  "compute_validation_metrics e d st = Inr st' \<or> compute_validation_metrics e d st = Inl (s, st')
   \<Longrightarrow> model st' = model st \<and> files st' = files st \<and> saves st' = saves st
     \<and> alarms st' = alarms st \<and> train_iterator st' = train_iterator st
     \<and> total_start_time st' = total_start_time st \<and> num_iterations st' = num_iterations st
     \<and> train_calls st' = train_calls st"
  unfolding compute_validation_metrics_def Let_def
  by (auto split: list.splits prod.splits option.splits)

lemma generate_tensorboard_samples_frame:
  "generate_tensorboard_samples e d n st = Inr st' \<or> generate_tensorboard_samples e d n st = Inl (s, st')
   \<Longrightarrow> model st' = model st \<and> files st' = files st \<and> saves st' = saves st
     \<and> alarms st' = alarms st \<and> train_iterator st' = train_iterator st
     \<and> total_start_time st' = total_start_time st \<and> num_iterations st' = num_iterations st
     \<and> train_calls st' = train_calls st \<and> stdout st' = stdout st"
  unfolding generate_tensorboard_samples_def Let_def
  by (auto split: if_splits)

lemma next_batch_frame:
  "next_batch e st = Some (b, st') \<Longrightarrow>
     model st' = model st \<and> files st' = files st \<and> saves st' = saves st
     \<and> alarms st' = alarms st \<and> writer st' = writer st
     \<and> total_start_time st' = total_start_time st \<and> num_iterations st' = num_iterations st
     \<and> train_calls st' = train_calls st"
  unfolding next_batch_def
  by (auto split: list.splits)

lemma train_loop_fetch_Inr:
  "train_loop_fetch e st = Inr (b, st') \<Longrightarrow>
     model st' = model st \<and> train_calls st' = train_calls st \<and> num_iterations st' = num_iterations st
     \<and> saves st' = saves st \<and> files st' = files st \<and> writer st' = writer st"
  unfolding train_loop_fetch_def Let_def
  by (auto split: option.splits prod.splits dest!: next_batch_frame)

lemma train_loop_step_Inr:
  "train_loop_step e b st = Inr (r, st') \<Longrightarrow>
     global_step (model st') = global_step (model st) + 1
     \<and> global_step (model st') < 2 ^ 31
     \<and> train_calls st' = train_calls st @ [(global_step (model st), b)]
     \<and> num_iterations st' = Suc (num_iterations st)
     \<and> saves st' = saves st \<and> files st' = files st \<and> writer st' = writer st
     \<and> stdout st' = stdout st \<and> train_iterator st' = train_iterator st
     \<and> r = fst (train_step e (model st) (fst b) (snd b))"
  unfolding train_loop_step_def Let_def set_global_step_def global_step_def
  by (auto split: prod.splits if_splits sum.splits)

lemma train_loop_log_fields:
  "model (train_loop_log l t st) = model st"
  "train_calls (train_loop_log l t st) = train_calls st"
  "num_iterations (train_loop_log l t st) = num_iterations st"
  "saves (train_loop_log l t st) = saves st"
  "files (train_loop_log l t st) = files st"
  "stdout (train_loop_log l t st) = stdout st"
  "train_iterator (train_loop_log l t st) = train_iterator st"
  by (simp_all add: train_loop_log_def Let_def)

lemma train_loop_nan_Inr: "train_loop_nan l st = Inr st' \<longleftrightarrow> \<not> isnan l \<and> st' = st"
  by (auto simp: train_loop_nan_def)

lemma train_loop_eval_Inr:
  "train_loop_eval e st = Inr st' \<Longrightarrow>
     global_step (model st') = global_step (model st)
     \<and> train_calls st' = train_calls st \<and> num_iterations st' = num_iterations st
     \<and> train_iterator st' = train_iterator st
     \<and> saves st' = saves st @ (if global_step (model st) mod EVAL_FREQUENCY = 0
                                then [checkpoint_name (global_step (model st))] else [])"
  unfolding train_loop_eval_def
  by (auto simp: and_then_Inr save_model_fields global_step_def split: if_splits
      dest!: compute_validation_metrics_frame[OF disjI1])

lemma train_loop_generate_Inr:
  "train_loop_generate e st = Inr st' \<Longrightarrow>
     model st' = model st
     \<and> train_calls st' = train_calls st \<and> num_iterations st' = num_iterations st
     \<and> train_iterator st' = train_iterator st
     \<and> saves st' = saves st \<and> files st' = files st \<and> stdout st' = stdout st"
  unfolding train_loop_generate_def
  by (auto split: if_splits dest!: generate_tensorboard_samples_frame[OF disjI1])

lemma train_loop_body_Inr:
  assumes "train_loop_body e st = Inr st'"
  shows "global_step (model st') = global_step (model st) + 1
     \<and> global_step (model st') < 2 ^ 31
     \<and> (\<exists>b. train_calls st' = train_calls st @ [(global_step (model st), b)])
     \<and> num_iterations st' = Suc (num_iterations st)
     \<and> saves st' = saves st @ (if (global_step (model st) + 1) mod EVAL_FREQUENCY = 0
                                then [checkpoint_name (global_step (model st) + 1)] else [])"
proof -
  from assms obtain b s1 l t s2 s3 s4 where
    f: "train_loop_fetch e st = Inr (b, s1)" and
    s: "train_loop_step e b s1 = Inr ((l, t), s2)" and
    n: "train_loop_nan l (train_loop_log l t s2) = Inr s3" and
    ev: "train_loop_eval e s3 = Inr s4" and
    g: "train_loop_generate e s4 = Inr st'"
    unfolding train_loop_body_def by (auto simp: and_then_Inr)
  from n have s3: "s3 = train_loop_log l t s2" by (simp add: train_loop_nan_Inr)
  note F = train_loop_fetch_Inr[OF f] and S = train_loop_step_Inr[OF s]
    and E = train_loop_eval_Inr[OF ev] and G = train_loop_generate_Inr[OF g]
  show ?thesis
    using F S E G by (simp add: s3 train_loop_log_fields)
qed


lemma train_while_counts:
  assumes "global_step (model st) = int k" and "num_iterations st = k"
    and "map fst (train_calls st) = map int [0..<k]"
    and "train_while e fuel st = (out, st')" and "out = Running \<or> out = Returned"
  shows "\<exists>N. k \<le> N \<and> N \<le> k + fuel \<and> (out = Running \<longrightarrow> N = k + fuel)
           \<and> global_step (model st') = int N \<and> num_iterations st' = N
           \<and> map fst (train_calls st') = map int [0..<N]"
  using assms
proof (induction fuel arbitrary: st k)
  case 0
  then show ?case by auto
next
  case (Suc fuel)
  show ?case
  proof (cases "is_done e (model st)")
    case True
    with Suc.prems show ?thesis by auto
  next
    case False
    with Suc.prems obtain s1 where b: "train_loop_body e st = Inr s1"
      and w: "train_while e fuel s1 = (out, st')"
      by (auto split: sum.splits prod.splits)
    from train_loop_body_Inr[OF b] Suc.prems(1-3)
    have "global_step (model s1) = int (Suc k)" "num_iterations s1 = Suc k"
      "map fst (train_calls s1) = map int [0..<Suc k]"
      by auto
    from Suc.IH[OF this w Suc.prems(5)] show ?thesis
      by (auto intro: exI)
  qed
qed

section \<open>The step counter and the calls of the train step\<close>

text \<open>
  C1. A run of the training loop that starts from a fresh model (step counter 0) and neither
  stops on a NaN loss nor otherwise has completed some number \<open>N\<close> of iterations, all the
  fuel when it is still running: afterwards the step counter is \<open>N\<close>, \<open>train_step\<close> was
  called \<open>N\<close> times, and the counter read 0, 1, ..., \<open>N - 1\<close> at these calls: one increment
  for each completed step, none skipped, none undone.
\<close>

theorem global_step_counts_train_steps:
  assumes "global_step (model st) = 0" and "train_calls st = []"
    and "train_loop e fuel st = (out, st')" and "out = Running \<or> out = Returned"
  shows "\<exists>N. N \<le> fuel \<and> (out = Running \<longrightarrow> N = fuel)
           \<and> global_step (model st') = int N \<and> num_iterations st' = N
           \<and> map fst (train_calls st') = map int [0..<N]"
proof -
  define s0 where "s0 = (if cuda_is_available e
                then st\<lparr>model := (model st)\<lparr>device := CUDA\<rparr>,
                        stdout := stdout st @ [''Moved model to GPU.'']\<rparr>
                else st\<lparr>stdout := stdout st @
                  [''WARNING: No GPU detected, running on CPU. Training may be very slow.'']\<rparr>)
            \<lparr>train_iterator := train_set e, total_start_time := False, num_iterations := 0\<rparr>"
  have init: "global_step (model s0) = int 0" "num_iterations s0 = 0"
    "map fst (train_calls s0) = map int [0..<0]"
    using assms(1,2) by (simp_all add: s0_def global_step_def)
  obtain s1 where w: "train_while e fuel s0 = (out, s1)"
    and fin: "model st' = model s1" "num_iterations st' = num_iterations s1"
      "train_calls st' = train_calls s1"
    using assms(3,4) unfolding train_loop_def Let_def s0_def[symmetric]
    by (auto split: prod.splits outcome.splits simp: save_model_fields)
  from train_while_counts[OF init w assms(4)] show ?thesis
    by (simp add: fin)
qed



theorem global_step_counts_train_steps_witness:
  "global_step (model demo_state) = 0 \<and> train_calls demo_state = []
   \<and> fst (train_loop demo_env 5 demo_state) = Returned
   \<and> (\<exists>N\<le>5. (Returned = Running \<longrightarrow> N = 5)
         \<and> global_step (model (snd (train_loop demo_env 5 demo_state))) = int N
         \<and> num_iterations (snd (train_loop demo_env 5 demo_state)) = N
         \<and> map fst (train_calls (snd (train_loop demo_env 5 demo_state))) = map int [0..<N])"
proof -
  have h1: "global_step (model demo_state) = 0" by code_simp
  have h2: "train_calls demo_state = []" by code_simp
  have h3: "fst (train_loop demo_env 5 demo_state) = Returned" by code_simp
  then have h4: "train_loop demo_env 5 demo_state
      = (Returned, snd (train_loop demo_env 5 demo_state))"
    by (metis prod.collapse)
  show ?thesis
    using h1 h2 h3 global_step_counts_train_steps [OF h1 h2 h4] by simp
qed

section \<open>A NaN loss\<close>

lemma train_loop_fetch_Inr_more:
  "train_loop_fetch e st = Inr (b, s1) \<Longrightarrow> total_start_time s1 = total_start_time st
     \<and> alarms s1 = alarms st @ [if total_start_time st then MAX_TRAINING_ITERATION_DELAY
                  else MAX_FIRST_ITERATION_DELAY]"
  unfolding train_loop_fetch_def Let_def
  by (auto split: option.splits prod.splits dest!: next_batch_frame)

lemma train_loop_step_nan:
  assumes "train_step e (model s1) (fst b) (snd b) = ((loss, tb_logs), learned)"
  shows "(\<exists>s2. train_loop_step e b s1 = Inr ((loss, tb_logs), s2)
            \<and> global_step (model s2) = global_step (model s1) + 1
            \<and> train_calls s2 = train_calls s1 @ [(global_step (model s1), b)]
            \<and> saves s2 = saves s1 \<and> files s2 = files s1 \<and> writer s2 = writer s1)
         \<or> (\<exists>s2. train_loop_step e b s1 = Inl (Uncaught RuntimeError, s2)
            \<and> global_step (model s2) = global_step (model s1)
            \<and> train_calls s2 = train_calls s1 @ [(global_step (model s1), b)]
            \<and> saves s2 = saves s1 \<and> files s2 = files s1 \<and> writer s2 = writer s1)"
  unfolding train_loop_step_def Let_def set_global_step_def global_step_def
  using assms by (auto split: prod.splits if_splits sum.splits)

text \<open>
  C2. An iteration of the loop whose train step returns a NaN loss ends the process, whatever
  fuel is left: with \<open>hard_exit(1)\<close> after the one increment of the step counter of this
  iteration (or, when that increment does not fit the int32 buffer, with the RuntimeError
  of the setter and the counter unchanged), so with exit status 1 either way. The train step
  was called once, and no checkpoint was written: the directory and the list of saves are
  those from before the iteration.
\<close>

theorem nan_loss_stops_the_process:
  assumes fetch: "train_loop_fetch e st = Inr (b, s1)"
    and step: "train_step e (model st) (fst b) (snd b) = ((loss, tb_logs), learned)"
    and nan: "isnan loss"
    and running: "\<not> is_done e (model st)"
  shows "\<exists>s st'. train_while e (Suc fuel) st = (Stopped s, st')
           \<and> exit_status s = 1
           \<and> (s = HardExit 1 \<and> global_step (model st') = global_step (model st) + 1
              \<or> s = Uncaught RuntimeError \<and> global_step (model st') = global_step (model st))
           \<and> train_calls st' = train_calls st @ [(global_step (model st), b)]
           \<and> saves st' = saves st \<and> files st' = files st"
proof -
  note F = train_loop_fetch_Inr[OF fetch]
  from step F have step': "train_step e (model s1) (fst b) (snd b) = ((loss, tb_logs), learned)"
    by simp
  from train_loop_step_nan[OF step'] show ?thesis
  proof (elim disjE exE conjE)
    fix s2 assume s: "train_loop_step e b s1 = Inr ((loss, tb_logs), s2)"
      and g: "global_step (model s2) = global_step (model s1) + 1"
      and r: "train_calls s2 = train_calls s1 @ [(global_step (model s1), b)]"
         "saves s2 = saves s1" "files s2 = files s1" "writer s2 = writer s1"
    have "train_loop_body e st =
       Inl (HardExit 1, (train_loop_log loss tb_logs s2)\<lparr>stdout := stdout (train_loop_log loss tb_logs s2) @ [''Detected NaN loss. Exiting!'']\<rparr>)"
      unfolding train_loop_body_def using fetch s nan
      by (simp add: and_then_def train_loop_nan_def)
    with running g r F show ?thesis
      by (simp add: train_loop_log_fields)
  next
    fix s2 assume s: "train_loop_step e b s1 = Inl (Uncaught RuntimeError, s2)"
      and g: "global_step (model s2) = global_step (model s1)"
      and r: "train_calls s2 = train_calls s1 @ [(global_step (model s1), b)]"
         "saves s2 = saves s1" "files s2 = files s1" "writer s2 = writer s1"
    have "train_loop_body e st = Inl (Uncaught RuntimeError, s2)"
      unfolding train_loop_body_def using fetch s
      by (simp add: and_then_def)
    with running g r F show ?thesis
      by simp
  qed
qed

theorem nan_loss_stops_the_process_witness:
  "train_loop_fetch nan_env (state_at 9)
     = Inr (batch_of 0, (state_at 9)\<lparr>alarms := [600], train_iterator := []\<rparr>)
   \<and> train_step nan_env (model (state_at 9)) (fst (batch_of 0)) (snd (batch_of 0))
     = ((NaN, [(''l1'', Finite 2)]), (parameters demo_model, optimizers demo_model))
   \<and> isnan NaN \<and> \<not> is_done nan_env (model (state_at 9))
   \<and> (\<exists>s st'. train_while nan_env (Suc 3) (state_at 9) = (Stopped s, st')
           \<and> exit_status s = 1
           \<and> (s = HardExit 1 \<and> global_step (model st') = global_step (model (state_at 9)) + 1
              \<or> s = Uncaught RuntimeError \<and> global_step (model st') = global_step (model (state_at 9)))
           \<and> train_calls st' = train_calls (state_at 9) @ [(global_step (model (state_at 9)), batch_of 0)]
           \<and> saves st' = saves (state_at 9) \<and> files st' = files (state_at 9))"
proof -
  have h1: "train_loop_fetch nan_env (state_at 9)
     = Inr (batch_of 0, (state_at 9)\<lparr>alarms := [600], train_iterator := []\<rparr>)"
    by code_simp
  have h2: "train_step nan_env (model (state_at 9)) (fst (batch_of 0)) (snd (batch_of 0))
     = ((NaN, [(''l1'', Finite 2)]), (parameters demo_model, optimizers demo_model))"
    by code_simp
  have h3: "isnan NaN" by simp
  have h4: "\<not> is_done nan_env (model (state_at 9))" by code_simp
  show ?thesis
    using h1 h2 h3 h4 nan_loss_stops_the_process [OF h1 h2 h3 h4, of 3] by simp
qed

text \<open>
  C3, as stated, fails: the records are written before the NaN test. In the run below the step
  counter goes from 9 to 10, a multiple of \<open>LOG_FREQUENCY\<close>, the loss is NaN, and at the exit
  the writer holds the loss record and the aux-loss record of this very iteration.
\<close>

theorem nan_loss_emitted_counterexample:
  "fst (train_while nan_env 1 (state_at 9)) = Stopped (HardExit 1)
   \<and> writer (state_at 9) = []
   \<and> writer (snd (train_while nan_env 1 (state_at 9)))
       = [Scalar ''train/loss'' NaN 10, Scalar ''train/l1'' (Finite 2) 10]"
  by code_simp

text \<open>
  C3, amended. The emission at \<open>LOG_FREQUENCY\<close> comes before the NaN test: an iteration whose
  loss is NaN first writes the scalar loss and every aux-loss entry when the incremented step
  counter is a multiple of \<open>LOG_FREQUENCY\<close>, writes nothing otherwise, and then ends the
  process with \<open>hard_exit(1)\<close> (when the increment does not fit the int32 buffer, the
  RuntimeError of the setter ends the process before anything is written).
\<close>

theorem nan_loss_is_logged_before_the_exit:
  assumes fetch: "train_loop_fetch e st = Inr (b, s1)"
    and step: "train_step e (model st) (fst b) (snd b) = ((loss, tb_logs), learned)"
    and nan: "isnan loss"
  shows "\<exists>s st'. train_loop_body e st = Inl (s, st')
           \<and> (s = HardExit 1
                \<and> writer st' = writer st @
                    (if (global_step (model st) + 1) mod LOG_FREQUENCY = 0
                     then Scalar ''train/loss'' loss (global_step (model st) + 1)
                       # map (\<lambda>(key, val). Scalar (''train/'' @ key) val (global_step (model st) + 1))
                           tb_logs
                     else [])
              \<or> s = Uncaught RuntimeError \<and> writer st' = writer st)"
proof -
  note F = train_loop_fetch_Inr[OF fetch]
  from step F have step': "train_step e (model s1) (fst b) (snd b) = ((loss, tb_logs), learned)"
    by simp
  from train_loop_step_nan[OF step'] show ?thesis
  proof (elim disjE exE conjE)
    fix s2 assume s: "train_loop_step e b s1 = Inr ((loss, tb_logs), s2)"
      and g: "global_step (model s2) = global_step (model s1) + 1"
      and r: "writer s2 = writer s1"
    have "train_loop_body e st =
       Inl (HardExit 1, (train_loop_log loss tb_logs s2)\<lparr>stdout := stdout (train_loop_log loss tb_logs s2) @ [''Detected NaN loss. Exiting!'']\<rparr>)"
      unfolding train_loop_body_def using fetch s nan
      by (simp add: and_then_def train_loop_nan_def)
    with g r F show ?thesis
      by (simp add: train_loop_log_def Let_def)
  next
    fix s2 assume s: "train_loop_step e b s1 = Inl (Uncaught RuntimeError, s2)"
      and r: "writer s2 = writer s1"
    have "train_loop_body e st = Inl (Uncaught RuntimeError, s2)"
      unfolding train_loop_body_def using fetch s
      by (simp add: and_then_def)
    with r F show ?thesis
      by simp
  qed
qed

theorem nan_loss_is_logged_before_the_exit_witness:
  "train_loop_fetch nan_env (state_at 9)
     = Inr (batch_of 0, (state_at 9)\<lparr>alarms := [600], train_iterator := []\<rparr>)
   \<and> train_step nan_env (model (state_at 9)) (fst (batch_of 0)) (snd (batch_of 0))
     = ((NaN, [(''l1'', Finite 2)]), (parameters demo_model, optimizers demo_model))
   \<and> isnan NaN
   \<and> (\<exists>s st'. train_loop_body nan_env (state_at 9) = Inl (s, st')
           \<and> (s = HardExit 1
                \<and> writer st' = [Scalar ''train/loss'' NaN 10, Scalar ''train/l1'' (Finite 2) 10]
              \<or> s = Uncaught RuntimeError \<and> writer st' = []))"
proof -
  have h1: "train_loop_fetch nan_env (state_at 9)
     = Inr (batch_of 0, (state_at 9)\<lparr>alarms := [600], train_iterator := []\<rparr>)"
    by code_simp
  have h2: "train_step nan_env (model (state_at 9)) (fst (batch_of 0)) (snd (batch_of 0))
     = ((NaN, [(''l1'', Finite 2)]), (parameters demo_model, optimizers demo_model))"
    by code_simp
  have h3: "isnan NaN" by simp
  have g: "global_step (model (state_at 9)) = 9" "writer (state_at 9) = []" by code_simp+
  show ?thesis
    using h1 h2 h3 nan_loss_is_logged_before_the_exit [OF h1 h2 h3]
    by (simp add: g LOG_FREQUENCY_def)
qed

section \<open>Recycling the training data\<close>

lemma laps_compute_validation_metrics:
  "compute_validation_metrics e d st = Inr st' \<Longrightarrow> laps st' = laps st"
  unfolding compute_validation_metrics_def Let_def laps_def
  by (auto split: list.splits prod.splits option.splits)

lemma train_loop_fetch_draw:
  assumes "train_loop_fetch e st = Inr (b, s1)"
  shows "(\<exists>b0. train_iterator st = b0 # train_iterator s1 \<and> b = moved e b0 \<and> laps s1 = laps st)
       \<or> (\<exists>b0. train_iterator st = [] \<and> train_set e = b0 # train_iterator s1 \<and> b = moved e b0
             \<and> laps s1 = Suc (laps st))"
  using assms unfolding train_loop_fetch_def Let_def next_batch_def laps_def moved_def
  by (auto split: list.splits)

lemma train_loop_body_draw:
  assumes "train_loop_body e st = Inr st'"
  shows "(\<exists>b0. train_iterator st = b0 # train_iterator st' \<and> laps st' = laps st
            \<and> train_calls st' = train_calls st @ [(global_step (model st), moved e b0)])
       \<or> (\<exists>b0. train_iterator st = [] \<and> train_set e = b0 # train_iterator st'
            \<and> laps st' = Suc (laps st)
            \<and> train_calls st' = train_calls st @ [(global_step (model st), moved e b0)])"
proof -
  from assms obtain b s1 l t s2 s3 s4 where
    f: "train_loop_fetch e st = Inr (b, s1)" and
    s: "train_loop_step e b s1 = Inr ((l, t), s2)" and
    n: "train_loop_nan l (train_loop_log l t s2) = Inr s3" and
    ev: "train_loop_eval e s3 = Inr s4" and
    g: "train_loop_generate e s4 = Inr st'"
    unfolding train_loop_body_def by (auto simp: and_then_Inr)
  from n have s3: "s3 = train_loop_log l t s2" by (simp add: train_loop_nan_Inr)
  note F = train_loop_fetch_Inr[OF f] and S = train_loop_step_Inr[OF s]
    and E = train_loop_eval_Inr[OF ev] and G = train_loop_generate_Inr[OF g]
  have "laps s4 = laps s3"
    using ev unfolding train_loop_eval_def
    by (auto simp: and_then_Inr laps_def save_model_fields split: if_splits
        dest!: laps_compute_validation_metrics[unfolded laps_def])
  then have l: "laps st' = laps s1"
    using S G by (simp add: laps_def s3 train_loop_log_fields)
  have it: "train_iterator st' = train_iterator s1"
    using S E G by (simp add: s3 train_loop_log_fields)
  have c: "train_calls st' = train_calls st @ [(global_step (model st), b)]"
    using F S E G by (simp add: s3 train_loop_log_fields)
  from train_loop_fetch_draw[OF f] show ?thesis
    unfolding l it c by auto
qed

lemma train_while_laps:
  assumes "train_while e fuel st = (Running, st')"
    and "train_iterator st = drop p (train_set e)" and "p \<le> length (train_set e)"
    and "k = c * length (train_set e) + p" and "0 < k \<longrightarrow> 0 < p"
    and "laps st = l0 + c"
    and "map snd (train_calls st) = pre @ map (\<lambda>i. moved e (train_set e ! (i mod length (train_set e)))) [0..<k]"
  shows "\<exists>c' p'. p' \<le> length (train_set e) \<and> k + fuel = c' * length (train_set e) + p'
           \<and> (0 < k + fuel \<longrightarrow> 0 < p') \<and> laps st' = l0 + c'
           \<and> map snd (train_calls st') = pre @ map (\<lambda>i. moved e (train_set e ! (i mod length (train_set e)))) [0..<k + fuel]"
  using assms
proof (induction fuel arbitrary: st p k c)
  case 0
  then show ?case by auto
next
  case (Suc fuel)
  let ?xs = "train_set e" let ?L = "length (train_set e)"
  from Suc.prems(1) obtain s1 where b: "train_loop_body e st = Inr s1"
    and w: "train_while e fuel s1 = (Running, st')"
    by (auto split: if_splits sum.splits prod.splits)
  from train_loop_body_draw[OF b]
  have "\<exists>p1 c1. train_iterator s1 = drop p1 ?xs \<and> p1 \<le> ?L \<and> Suc k = c1 * ?L + p1 \<and> 0 < p1
     \<and> laps s1 = l0 + c1
     \<and> map snd (train_calls s1) = pre @ map (\<lambda>i. moved e (?xs ! (i mod ?L))) [0..<Suc k]"
  proof (elim disjE exE conjE)
    fix b0 assume it: "train_iterator st = b0 # train_iterator s1" and l: "laps s1 = laps st"
      and tc: "train_calls s1 = train_calls st @ [(global_step (model st), moved e b0)]"
    from it Suc.prems(2) have pl: "p < ?L" by (cases "p < ?L") auto
    with it Suc.prems(2) have d: "drop (Suc p) ?xs = train_iterator s1" "b0 = ?xs ! p"
      by (simp_all add: Cons_nth_drop_Suc[symmetric])
    have "k mod ?L = p" using Suc.prems(4) pl by simp
    then show ?thesis
      using d l tc Suc.prems pl
      by - (rule exI[of _ "Suc p"], rule exI[of _ c], simp)
  next
    fix b0 assume it: "train_iterator st = []" and ts: "?xs = b0 # train_iterator s1"
      and l: "laps s1 = Suc (laps st)"
      and tc: "train_calls s1 = train_calls st @ [(global_step (model st), moved e b0)]"
    from it Suc.prems(2,3) have pl: "p = ?L" by simp
    have d: "drop 1 ?xs = train_iterator s1" "b0 = ?xs ! 0" "Suc 0 \<le> ?L"
      using ts by simp_all
    have "k mod ?L = 0" using Suc.prems(4) pl by simp
    then show ?thesis
      using d l tc Suc.prems pl
      by - (rule exI[of _ 1], rule exI[of _ "Suc c"], simp)
  qed
  then obtain p1 c1 where inv: "train_iterator s1 = drop p1 ?xs" "p1 \<le> ?L" "Suc k = c1 * ?L + p1"
     "0 < Suc k \<longrightarrow> 0 < p1" "laps s1 = l0 + c1"
     "map snd (train_calls s1) = pre @ map (\<lambda>i. moved e (?xs ! (i mod ?L))) [0..<Suc k]"
    by blast
  from Suc.IH[OF w inv] show ?case by simp
qed

text \<open>
  C8, as stated, fails: over a training set of three batches, ten training steps restart the
  stream three times (at the fourth, the seventh and the tenth draw), not twice.
\<close>

theorem three_batches_ten_steps_counterexample:
  "length (train_set lap_env) = 3
   \<and> fst (train_loop lap_env 10 demo_state) = Running
   \<and> num_iterations (snd (train_loop lap_env 10 demo_state)) = 10
   \<and> laps demo_state = 0
   \<and> laps (snd (train_loop lap_env 10 demo_state)) = 3
   \<and> laps (snd (train_loop lap_env 10 demo_state)) \<noteq> 2"
  by code_simp

text \<open>
  C8, amended. Over a training set of three batches, a run of ten training steps passes the
  batches in three full passes and one partial pass of one batch, and restarts the stream
  three times, printing the lap notice each time.
\<close>

theorem three_batches_ten_steps:
  assumes ts: "train_set e = [b1, b2, b3]" and run: "train_loop e 10 st = (Running, st')"
  shows "map snd (train_calls st')
           = map snd (train_calls st) @ map (moved e) [b1, b2, b3, b1, b2, b3, b1, b2, b3, b1]
         \<and> laps st' = laps st + 3"
proof -
  define s0 where "s0 = (if cuda_is_available e
                then st\<lparr>model := (model st)\<lparr>device := CUDA\<rparr>,
                        stdout := stdout st @ [''Moved model to GPU.'']\<rparr>
                else st\<lparr>stdout := stdout st @
                  [''WARNING: No GPU detected, running on CPU. Training may be very slow.'']\<rparr>)
            \<lparr>train_iterator := train_set e, total_start_time := False, num_iterations := 0\<rparr>"
  have w: "train_while e 10 s0 = (Running, st')"
    using run unfolding train_loop_def Let_def s0_def[symmetric]
    by (auto split: prod.splits outcome.splits)
  have i: "train_iterator s0 = drop 0 (train_set e)" "0 \<le> length (train_set e)"
    "(0::nat) = 0 * length (train_set e) + 0" "(0::nat) < 0 \<longrightarrow> (0::nat) < 0" "laps s0 = laps st + 0"
    "map snd (train_calls s0) = map snd (train_calls st)
       @ map (\<lambda>i. moved e (train_set e ! (i mod length (train_set e)))) [0..<0]"
    by (simp_all add: s0_def laps_def)
  from train_while_laps[OF w i] obtain c' where "\<exists>p'. p' \<le> length (train_set e)
      \<and> 0 + 10 = c' * length (train_set e) + p'
      \<and> (0 < (0::nat) + 10 \<longrightarrow> 0 < p') \<and> laps st' = laps st + c'
      \<and> map snd (train_calls st') = map snd (train_calls st)
         @ map (\<lambda>i. moved e (train_set e ! (i mod length (train_set e)))) [0..<0 + 10]" ..
  then obtain p' where r0: "p' \<le> length (train_set e)
      \<and> 0 + 10 = c' * length (train_set e) + p'
      \<and> (0 < (0::nat) + 10 \<longrightarrow> 0 < p') \<and> laps st' = laps st + c'
      \<and> map snd (train_calls st') = map snd (train_calls st)
         @ map (\<lambda>i. moved e (train_set e ! (i mod length (train_set e)))) [0..<0 + 10]" ..
  have r: "p' \<le> 3" "10 = c' * 3 + p'" "0 < p'" "laps st' = laps st + c'"
    "map snd (train_calls st') = map snd (train_calls st)
       @ map (\<lambda>i. moved e ([b1, b2, b3] ! (i mod 3))) [0..<10]"
    using r0 by (simp_all add: ts)
  from r(1-3) have "c' = 3" by arith
  moreover have "map (\<lambda>i. moved e ([b1, b2, b3] ! (i mod 3))) [0..<10]
     = map (moved e) [b1, b2, b3, b1, b2, b3, b1, b2, b3, b1]"
  proof -
    have "[0..<10] = [0, 1, 2, 3, 4, 5, 6, 7, 8, 9::nat]" by code_simp
    then show ?thesis by simp
  qed
  ultimately show ?thesis using r(4,5) by simp
qed

theorem three_batches_ten_steps_witness:
  "train_set lap_env = [batch_of 0, batch_of 1, batch_of 2]
   \<and> fst (train_loop lap_env 10 demo_state) = Running
   \<and> map snd (train_calls (snd (train_loop lap_env 10 demo_state)))
       = map snd (train_calls demo_state) @ map (moved lap_env)
           [batch_of 0, batch_of 1, batch_of 2, batch_of 0, batch_of 1, batch_of 2,
            batch_of 0, batch_of 1, batch_of 2, batch_of 0]
   \<and> laps (snd (train_loop lap_env 10 demo_state)) = laps demo_state + 3"
proof -
  have h1: "train_set lap_env = [batch_of 0, batch_of 1, batch_of 2]" by code_simp
  have h2: "fst (train_loop lap_env 10 demo_state) = Running" by code_simp
  then have h3: "train_loop lap_env 10 demo_state
      = (Running, snd (train_loop lap_env 10 demo_state))"
    by (metis prod.collapse)
  show ?thesis
    using h1 h2 three_batches_ten_steps [OF h1 h3] by simp
qed

section \<open>Validation metrics\<close>

lemma key_losses_map:
  "\<forall>b \<in> set bs. map_of (g b) k = Some (f b) \<Longrightarrow> key_losses k (map g bs) = Some (map f bs)"
  by (induction bs) simp_all

lemma mean_Finite:
  "mean (map (\<lambda>b. Finite (x b)) bs) = Finite (sum_list (map x bs) / real (length bs))"
  by (simp add: mean_def comp_def)

lemma sorted_keys_a_b:
  assumes "fst ` set d = {''a'', ''b''}"
  shows "sorted_keys d = [''a'', ''b'']"
proof -
  have "sorted_keys d = sorted_list_of_set (set (map fst d))"
    unfolding sorted_keys_def by (simp only: sorted_list_of_set_sort_remdups)
  also have "set (map fst d) = {''a'', ''b''}" using assms by simp
  also have "sorted_list_of_set {''a'', ''b''} = [''a'', ''b'']" by code_simp
  finally show ?thesis .
qed

text \<open>
  C10. For a validation set that is not empty and whose batches all report the losses of the
  keys \<open>a\<close> and \<open>b\<close>, with values \<open>x\<close> and \<open>y\<close>, \<open>compute_validation_metrics\<close> returns and
  adds exactly two records to the writer: \<open>valid/a\<close> with the arithmetic mean of the \<open>x\<close> and
  then \<open>valid/b\<close> with the arithmetic mean of the \<open>y\<close>, in this order, at the current step.
\<close>

theorem validation_means_of_a_and_b:
  fixes x y :: "batch \<Rightarrow> real"
  assumes nonempty: "dataloader \<noteq> []"
    and keys: "\<forall>b \<in> set dataloader. fst ` set (batch_losses e (model st) b) = {''a'', ''b''}"
    and a: "\<forall>b \<in> set dataloader. map_of (batch_losses e (model st) b) ''a'' = Some (Finite (x b))"
    and b: "\<forall>b \<in> set dataloader. map_of (batch_losses e (model st) b) ''b'' = Some (Finite (y b))"
  shows "\<exists>st'. compute_validation_metrics e dataloader st = Inr st'
           \<and> writer st' = writer st @
               [Scalar ''valid/a'' (Finite (sum_list (map x dataloader) / real (length dataloader)))
                  (global_step (model st)),
                Scalar ''valid/b'' (Finite (sum_list (map y dataloader) / real (length dataloader)))
                  (global_step (model st))]"
proof -
  let ?losses = "map (batch_losses e (model st)) dataloader"
  from nonempty obtain b0 rest where d: "dataloader = b0 # rest" by (cases dataloader) auto
  have k: "sorted_keys (batch_losses e (model st) b0) = [''a'', ''b'']"
    using keys d by (intro sorted_keys_a_b) simp
  have ka: "key_losses ''a'' ?losses = Some (map (\<lambda>b. Finite (x b)) dataloader)"
    using a by (rule key_losses_map)
  have kb: "key_losses ''b'' ?losses = Some (map (\<lambda>b. Finite (y b)) dataloader)"
    using b by (rule key_losses_map)
  have em: "emit_means [''a'', ''b''] ?losses (global_step (model st)) (writer st)
      = (None, writer st @
               [Scalar ''valid/a'' (Finite (sum_list (map x dataloader) / real (length dataloader)))
                  (global_step (model st)),
                Scalar ''valid/b'' (Finite (sum_list (map y dataloader) / real (length dataloader)))
                  (global_step (model st))])"
    by (simp add: ka kb mean_Finite)
  have l: "?losses = batch_losses e (model st) b0 # map (batch_losses e (model st)) rest"
    by (simp add: d)
  show ?thesis
    unfolding compute_validation_metrics_def Let_def
    using em k by (simp add: l d[symmetric])
qed

theorem validation_means_of_a_and_b_witness:
  "(\<exists>st'. compute_validation_metrics demo_env (valid_set demo_env) demo_state = Inr st'
           \<and> writer st' = writer demo_state @
               [Scalar ''valid/a'' (Finite (sum_list (map (\<lambda>b. 1) (valid_set demo_env))
                   / real (length (valid_set demo_env)))) (global_step (model demo_state)),
                Scalar ''valid/b'' (Finite (sum_list (map (\<lambda>b. 2) (valid_set demo_env))
                   / real (length (valid_set demo_env)))) (global_step (model demo_state))])
   \<and> length (valid_set demo_env) = 2"
proof -
  have h1: "valid_set demo_env \<noteq> []" by code_simp
  have h2: "\<forall>b \<in> set (valid_set demo_env).
      fst ` set (batch_losses demo_env (model demo_state) b) = {''a'', ''b''}"
    by code_simp
  have h3: "\<forall>b \<in> set (valid_set demo_env).
      map_of (batch_losses demo_env (model demo_state) b) ''a'' = Some (Finite ((\<lambda>b. 1) b))"
    by code_simp
  have h4: "\<forall>b \<in> set (valid_set demo_env).
      map_of (batch_losses demo_env (model demo_state) b) ''b'' = Some (Finite ((\<lambda>b. 2) b))"
    by code_simp
  have h5: "length (valid_set demo_env) = 2" by code_simp
  show ?thesis
    using validation_means_of_a_and_b [OF h1 h2 h3 h4] h5 by simp
qed

section \<open>Samples and their ground truth\<close>




text \<open>
  What the sample generator does by itself, on a validation set of at least \<open>n_samples\<close>
  batches: it draws the first \<open>n_samples\<close> batches and writes, for each, the ground truth
  before the synthesized waveform when the step counter is 0, and the synthesized waveform
  alone otherwise.
\<close>

lemma length_write_samples:
  "length (write_samples step idx xs) = (if step = 0 then 2 * length xs else length xs)"
  by (induction step idx xs rule: write_samples.induct) auto

lemma generate_tensorboard_samples_records:
  assumes "n_samples \<le> length dataloader"
  shows "\<exists>st'. generate_tensorboard_samples e dataloader n_samples st = Inr st'
           \<and> length (writer st') = length (writer st)
                 + (if global_step (model st) = 0 then 2 * n_samples else n_samples)
           \<and> length (filter is_ground_truth (writer st'))
               = length (filter is_ground_truth (writer st))
                 + (if global_step (model st) = 0 then n_samples else 0)"
proof -
  have gt: "length (filter is_ground_truth (write_samples step idx xs))
      = (if step = 0 then length xs else 0)" for step idx xs
    by (induction step idx xs rule: write_samples.induct) auto
  show ?thesis
    using assms unfolding generate_tensorboard_samples_def Let_def
    by (simp add: length_write_samples gt)
qed

section \<open>The calls of the sample generator in the training loop\<close>

text \<open>
  The training loop calls the generator after the increment of the step counter, at
  multiples of \<open>GENERATE_FREQUENCY\<close>, so never at step 0: a run of the loop from a step
  counter that is not negative, whatever its length and its outcome, leaves the ground-truth
  records of the writer as they were.
\<close>

lemma gt_emit_means:
  "emit_means keys losses step w = (r, w') \<Longrightarrow>
     filter is_ground_truth w' = filter is_ground_truth w"
  by (induction keys arbitrary: w) (auto split: option.splits)

lemma gt_write_samples:
  "step \<noteq> 0 \<Longrightarrow> filter is_ground_truth (write_samples step idx xs) = []"
  by (induction step idx xs rule: write_samples.induct) auto

lemma gt_compute_validation_metrics:
  "compute_validation_metrics e d st = Inr st' \<or> compute_validation_metrics e d st = Inl (s, st')
   \<Longrightarrow> filter is_ground_truth (writer st') = filter is_ground_truth (writer st)"
  unfolding compute_validation_metrics_def Let_def
  by (auto split: list.splits prod.splits option.splits dest: gt_emit_means)

lemma gt_generate_tensorboard_samples:
  "generate_tensorboard_samples e d n st = Inr st' \<or> generate_tensorboard_samples e d n st = Inl (s, st')
   \<Longrightarrow> global_step (model st) \<noteq> 0
   \<Longrightarrow> filter is_ground_truth (writer st') = filter is_ground_truth (writer st)"
  unfolding generate_tensorboard_samples_def Let_def
  by (auto split: if_splits simp: gt_write_samples)

lemma gt_train_loop_log:
  "filter is_ground_truth (writer (train_loop_log l t st)) = filter is_ground_truth (writer st)"
  by (simp add: train_loop_log_def Let_def filter_empty_conv split_beta)

lemma gt_train_loop_fetch:
  "train_loop_fetch e st = Inr (b, st') \<or> train_loop_fetch e st = Inl (s, st')
    \<Longrightarrow> writer st' = writer st \<and> model st' = model st"
  unfolding train_loop_fetch_def Let_def next_batch_def
  by (auto split: option.splits prod.splits list.splits)

lemma gt_train_loop_step:
  "train_loop_step e b st = Inl (s, st') \<Longrightarrow> writer st' = writer st"
  unfolding train_loop_step_def Let_def set_global_step_def
  by (auto split: prod.splits if_splits sum.splits)

lemma gt_train_loop_eval:
  "train_loop_eval e st = Inr st' \<or> train_loop_eval e st = Inl (s, st')
    \<Longrightarrow> filter is_ground_truth (writer st') = filter is_ground_truth (writer st)"
  unfolding train_loop_eval_def
  by (auto simp: and_then_Inr and_then_Inl save_model_fields split: if_splits
      dest!: gt_compute_validation_metrics[OF disjI1] gt_compute_validation_metrics[OF disjI2])

lemma gt_train_loop_generate:
  "train_loop_generate e st = Inr st' \<or> train_loop_generate e st = Inl (s, st')
    \<Longrightarrow> global_step (model st) \<noteq> 0
    \<Longrightarrow> filter is_ground_truth (writer st') = filter is_ground_truth (writer st)"
  unfolding train_loop_generate_def
  by (auto split: if_splits dest!: gt_generate_tensorboard_samples[OF disjI1]
        gt_generate_tensorboard_samples[OF disjI2])

lemma gt_train_loop_body:
  assumes "train_loop_body e st = Inr st' \<or> train_loop_body e st = Inl (s, st')"
    and "0 \<le> global_step (model st)"
  shows "filter is_ground_truth (writer st') = filter is_ground_truth (writer st)"
proof (cases "train_loop_fetch e st")
  case (Inl x)
  with assms(1) have "train_loop_fetch e st = Inl (s, st')"
    by (simp add: train_loop_body_def and_then_def)
  from gt_train_loop_fetch[OF disjI2, OF this] show ?thesis by simp
next
  case (Inr p)
  obtain b s1 where p: "p = (b, s1)" by (cases p)
  note f = Inr[unfolded p]
  from gt_train_loop_fetch[OF disjI1, OF f] have F: "writer s1 = writer st" "model s1 = model st"
    by simp_all
  show ?thesis
  proof (cases "train_loop_step e b s1")
    case (Inl x)
    with assms(1) f have "train_loop_step e b s1 = Inl (s, st')"
      by (simp add: train_loop_body_def and_then_def)
    from gt_train_loop_step[OF this] F show ?thesis by simp
  next
    case (Inr q)
    obtain l t s2 where q: "q = ((l, t), s2)" by (cases q) auto
    note st = Inr[unfolded q]
    note S = train_loop_step_Inr[OF st]
    let ?s3 = "train_loop_log l t s2"
    have g3: "filter is_ground_truth (writer ?s3) = filter is_ground_truth (writer st)"
      using S F by (simp add: gt_train_loop_log)
    have pos: "global_step (model ?s3) \<noteq> 0"
      using S F assms(2) by (simp add: train_loop_log_fields)
    show ?thesis
    proof (cases "isnan l")
      case True
      with assms(1) f st have "st' = ?s3\<lparr>stdout := stdout ?s3 @ [''Detected NaN loss. Exiting!'']\<rparr>"
        by (simp add: train_loop_body_def and_then_def train_loop_nan_def)
      with g3 show ?thesis by simp
    next
      case False
      show ?thesis 
      proof (cases "train_loop_eval e ?s3")
        case (Inl x)
        with assms(1) f st False have "train_loop_eval e ?s3 = Inl (s, st')"
          by (simp add: train_loop_body_def and_then_def train_loop_nan_def)
        from gt_train_loop_eval[OF disjI2, OF this] g3 show ?thesis by simp
      next
        case (Inr s4)
        from gt_train_loop_eval[OF disjI1, OF Inr] g3
        have g4: "filter is_ground_truth (writer s4) = filter is_ground_truth (writer st)" by simp
        from train_loop_eval_Inr[OF Inr] pos have pos4: "global_step (model s4) \<noteq> 0" by simp
        from assms(1) f st False Inr
        have "train_loop_generate e s4 = Inr st' \<or> train_loop_generate e s4 = Inl (s, st')"
          by (simp add: train_loop_body_def and_then_def train_loop_nan_def)
        from gt_train_loop_generate[OF this pos4] g4 show ?thesis by simp
      qed
    qed
  qed
qed

lemma gt_train_while:
  assumes "train_while e fuel st = (out, st')" and "0 \<le> global_step (model st)"
  shows "filter is_ground_truth (writer st') = filter is_ground_truth (writer st)"
  using assms
proof (induction fuel arbitrary: st)
  case 0
  then show ?case by simp
next
  case (Suc fuel)
  show ?case
  proof (cases "is_done e (model st)")
    case True
    with Suc.prems show ?thesis by simp
  next
    case False
    show ?thesis
    proof (cases "train_loop_body e st")
      case (Inl x)
      obtain s s1 where x: "x = (s, s1)" by (cases x)
      with Inl False Suc.prems(1) have "s1 = st'" by simp
      with gt_train_loop_body[OF disjI2, OF Inl[unfolded x] Suc.prems(2)] show ?thesis by simp
    next
      case (Inr s1)
      with False Suc.prems(1) have w: "train_while e fuel s1 = (out, st')" by simp
      from train_loop_body_Inr[OF Inr] Suc.prems(2) have "0 \<le> global_step (model s1)" by simp
      from Suc.IH[OF w this] gt_train_loop_body[OF disjI1, OF Inr Suc.prems(2)]
      show ?thesis by simp
    qed
  qed
qed

lemma training_writes_no_ground_truth:
  assumes "0 \<le> global_step (model st)" and "train_loop e fuel st = (out, st')"
  shows "filter is_ground_truth (writer st') = filter is_ground_truth (writer st)"
proof -
  define s0 where "s0 = (if cuda_is_available e
                then st\<lparr>model := (model st)\<lparr>device := CUDA\<rparr>,
                        stdout := stdout st @ [''Moved model to GPU.'']\<rparr>
                else st\<lparr>stdout := stdout st @
                  [''WARNING: No GPU detected, running on CPU. Training may be very slow.'']\<rparr>)
            \<lparr>train_iterator := train_set e, total_start_time := False, num_iterations := 0\<rparr>"
  have i: "0 \<le> global_step (model s0)" "writer s0 = writer st"
    using assms(1) by (simp_all add: s0_def global_step_def)
  obtain o1 s1 where w: "train_while e fuel s0 = (o1, s1)" by (cases "train_while e fuel s0")
  have "writer st' = writer s1"
    using assms(2) w unfolding train_loop_def Let_def s0_def[symmetric]
    by (auto split: prod.splits outcome.splits simp: save_model_fields)
  with gt_train_while[OF w i(1)] i(2) show ?thesis by simp
qed


text \<open>
  The iteration that takes the step counter from 99999 to 100000 is the first to call the
  generator: it writes two synthesized records and no ground truth, whereas a call at step
  0 writes both for each sample.
\<close>

lemma first_generation_in_training:
  "map (\<lambda>r. case r of Audio tag wav step \<Rightarrow> (tag, step) | Scalar tag v step \<Rightarrow> (tag, step))
     (writer (snd (train_loop lap_env 1 (state_at 99999))))
   = [(''train/loss'', 100000), (''train/l1'', 100000), (''valid/a'', 100000),
      (''valid/b'', 100000), (''audio/0_synthesized'', 100000),
      (''audio/1_synthesized'', 100000)]"
  by code_simp

lemma generation_at_step_0:
  "map (\<lambda>r. case r of Audio tag wav step \<Rightarrow> (tag, step) | Scalar tag v step \<Rightarrow> (tag, step))
     (writer (projr (generate_tensorboard_samples demo_env (valid_set demo_env)
        GENERATE_NUM_SAMPLES demo_state)))
   = [(''audio/0_real'', 0), (''audio/0_synthesized'', 0),
      (''audio/1_real'', 0), (''audio/1_synthesized'', 0)]"
  by code_simp

section \<open>The names of checkpoints\<close>

text \<open>The name of a checkpoint determines its step: the digits read back give it.\<close>

lemma digit_value_digit_char: "d < 10 \<Longrightarrow> digit_value (digit_char d) = int d"
proof -
  assume "d < 10"
  then have "d \<in> {0, 1, 2, 3, 4, 5, 6, 7, 8, 9}" by auto
  then show ?thesis
    by (auto simp: digit_value_def digit_char_def)
qed

lemma number_of_append: "number_of (s @ [c]) = 10 * number_of s + digit_value c"
  by (simp add: number_of_def)

lemma number_of_decimal: "0 \<le> n \<Longrightarrow> number_of (decimal n) = n"
proof (induction n rule: decimal.induct)
  case (1 n)
  show ?case
  proof (cases "n < 10")
    case True
    with 1(2) have "nat n < 10" by simp
    from digit_value_digit_char[OF this] True 1(2) show ?thesis
      by (subst decimal.simps) (simp add: number_of_def)
  next
    case False
    have "nat (n mod 10) < 10" by simp
    from digit_value_digit_char[OF this] have "digit_value (digit_char (nat (n mod 10))) = n mod 10"
      by simp
    moreover from 1(1)[OF False] 1(2) False have "number_of (decimal (n div 10)) = n div 10" by simp
    ultimately show ?thesis using False
      by (subst decimal.simps) (simp add: number_of_append)
  qed
qed

lemma number_of_zeros: "number_of (replicate k (CHR ''0'') @ s) = number_of s"
proof -
  have "foldl (\<lambda>acc c. 10 * acc + digit_value c) 0 (replicate k (CHR ''0'')) = 0"
    by (induction k) (simp_all add: digit_value_def)
  then show ?thesis by (simp add: number_of_def)
qed

lemma number_of_format_08d: "0 \<le> n \<Longrightarrow> number_of (format_08d n) = n"
  by (simp add: format_08d_def zero_pad_def number_of_zeros number_of_decimal)


section \<open>The latest checkpoint\<close>

text \<open>
  Names of eight digits sort as their steps do, so that below step \<open>10^8\<close> the latest
  checkpoint is the one of the greatest step.
\<close>

lemma is_digit_digit_char: "d < 10 \<Longrightarrow> is_digit (digit_char d)"
proof -
  assume "d < 10"
  then have "d \<in> {0, 1, 2, 3, 4, 5, 6, 7, 8, 9}" by auto
  then show ?thesis by (auto simp: is_digit_def digit_char_def)
qed

lemma digit_value_range: "is_digit c \<Longrightarrow> 0 \<le> digit_value c \<and> digit_value c < 10"
  by (auto simp: is_digit_def digit_value_def)

lemma digit_value_less: "is_digit c \<Longrightarrow> is_digit d \<Longrightarrow> (c < d) = (digit_value c < digit_value d)"
  by (simp add: less_char_def digit_value_def)

lemma digit_value_eq: "is_digit c \<Longrightarrow> is_digit d \<Longrightarrow> (c = d) = (digit_value c = digit_value d)"
  by (auto simp: is_digit_def digit_value_def)

lemma number_of_Cons:
  "number_of (c # s) = digit_value c * 10 ^ length s + number_of s"
proof (induction s rule: rev_induct)
  case Nil
  then show ?case by (simp add: number_of_def)
next
  case (snoc x s)
  have "number_of (c # s @ [x]) = 10 * number_of (c # s) + digit_value x"
    using number_of_append[of "c # s" x] by simp
  then show ?case by (simp add: snoc number_of_append algebra_simps)
qed

lemma number_of_bound:
  "\<forall>c \<in> set s. is_digit c \<Longrightarrow> 0 \<le> number_of s \<and> number_of s < 10 ^ length s"
proof (induction s rule: rev_induct)
  case Nil
  then show ?case by (simp add: number_of_def)
next
  case (snoc x s)
  then have "0 \<le> number_of s" "number_of s < 10 ^ length s"
    "0 \<le> digit_value x" "digit_value x < 10"
    using digit_value_range[of x] by auto
  then show ?case by (simp add: number_of_append)
qed

lemma block_less:
  fixes a b x y p :: int
  assumes "0 \<le> x" "x < p" "0 \<le> y" "y < p"
  shows "(a * p + x < b * p + y) = (a < b \<or> a = b \<and> x < y)"
proof (cases "a < b")
  case True
  then have "a + 1 \<le> b" by simp
  then have "(a + 1) * p \<le> b * p" using assms by (intro mult_right_mono) auto
  then show ?thesis using True assms by (simp add: algebra_simps)
next
  case False
  show ?thesis
  proof (cases "a = b")
    case True
    then show ?thesis by simp
  next
    case False
    with \<open>\<not> a < b\<close> have "b + 1 \<le> a" by simp
    then have "(b + 1) * p \<le> a * p" using assms by (intro mult_right_mono) auto
    then show ?thesis using \<open>\<not> a < b\<close> False assms by (simp add: algebra_simps)
  qed
qed

lemma digits_less:
  assumes "length s = length t" "\<forall>c \<in> set s. is_digit c" "\<forall>c \<in> set t. is_digit c"
  shows "(s < t) = (number_of s < number_of t)"
  using assms
proof (induction s t rule: list_induct2)
  case Nil
  then show ?case by simp
next
  case (Cons c s d t)
  then have ih: "(s < t) = (number_of s < number_of t)" by simp
  have bs: "0 \<le> number_of s" "number_of s < 10 ^ length t"
    using number_of_bound[of s] Cons by auto
  have bt: "0 \<le> number_of t" "number_of t < 10 ^ length t"
    using number_of_bound[of t] Cons by auto
  have cd: "is_digit c" "is_digit d" using Cons by auto
  show ?case
    unfolding number_of_Cons Cons(1) block_less[OF bs bt]
    by (simp add: ih digit_value_less[OF cd] digit_value_eq[OF cd])
qed

lemma append_less_same_length:
  "length s = length t \<Longrightarrow> (s @ x < t @ x) = (s < (t :: string))"
  by (induction s t rule: list_induct2) auto

lemma decimal_digits: "0 \<le> n \<Longrightarrow> \<forall>c \<in> set (decimal n). is_digit c"
proof (induction n rule: decimal.induct)
  case (1 n)
  show ?case
  proof (cases "n < 10")
    case True
    with 1(2) have "nat n < 10" by simp
    from is_digit_digit_char[OF this] True show ?thesis
      by (subst decimal.simps) simp
  next
    case False
    have "nat (n mod 10) < 10" by simp
    from is_digit_digit_char[OF this] 1(1)[OF False] 1(2) False show ?thesis
      by (subst decimal.simps) simp
  qed
qed

lemma length_decimal: "0 \<le> n \<Longrightarrow> n < 10 ^ Suc k \<Longrightarrow> length (decimal n) \<le> Suc k"
proof (induction k arbitrary: n)
  case 0
  then show ?case by (subst decimal.simps) simp
next
  case (Suc k)
  show ?case
  proof (cases "n < 10")
    case True
    then show ?thesis by (subst decimal.simps) simp
  next
    case False
    from Suc.prems have "n div 10 < 10 ^ Suc k" by simp
    moreover from Suc.prems have "0 \<le> n div 10" by simp
    ultimately have "length (decimal (n div 10)) \<le> Suc k" by (rule Suc.IH[rotated])
    then show ?thesis using False by (subst decimal.simps) simp
  qed
qed

lemma format_08d_eight:
  assumes "0 \<le> n" "n < 10 ^ 8"
  shows "length (format_08d n) = 8" "\<forall>c \<in> set (format_08d n). is_digit c"
proof -
  have "n < 10 ^ Suc 7" using assms(2) by simp
  from length_decimal[OF assms(1) this] have l: "length (decimal n) \<le> 8" by simp
  then show "length (format_08d n) = 8"
    using assms(1) by (simp add: format_08d_def zero_pad_def)
  have z: "is_digit (CHR ''0'')" by (simp add: is_digit_def)
  show "\<forall>c \<in> set (format_08d n). is_digit c"
    using assms(1) decimal_digits[OF assms(1)] z
    by (auto simp: format_08d_def zero_pad_def)
qed

lemma checkpoint_name_less:
  assumes "0 \<le> a" "a < 10 ^ 8" "0 \<le> b" "b < 10 ^ 8"
  shows "(checkpoint_name a < checkpoint_name b) = (a < b)"
proof -
  note A = format_08d_eight[OF assms(1,2)] and B = format_08d_eight[OF assms(3,4)]
  have "(checkpoint_name a < checkpoint_name b) = (format_08d a < format_08d b)"
    unfolding checkpoint_name_def using A(1) B(1) by (intro append_less_same_length) simp
  also have "\<dots> = (number_of (format_08d a) < number_of (format_08d b))"
    using A B by (intro digits_less) simp_all
  finally show ?thesis
    by (simp add: number_of_format_08d assms)
qed

lemma matches_ckpt_checkpoint_name:
  assumes "0 \<le> n" "n < 10 ^ 8"
  shows "matches_ckpt (checkpoint_name n)"
proof -
  note A = format_08d_eight[OF assms]
  from A(1) obtain c s where f: "format_08d n = c # s" by (cases "format_08d n") auto
  with A(2) have "is_digit c" by simp
  then have "c \<noteq> CHR ''.''" by (auto simp: is_digit_def)
  then show ?thesis
    using A(1) f by (simp add: matches_ckpt_def checkpoint_name_def)
qed

lemma last_sort_Max: "xs \<noteq> [] \<Longrightarrow> last (sort xs) = Max (set (xs :: string list))"
proof -
  assume "xs \<noteq> []"
  then have n: "sort xs \<noteq> []" by (metis length_0_conv length_sort)
  have "Max (set (sort xs)) = last (sort xs)"
  proof (rule Max_eqI)
    show "finite (set (sort xs))" by simp
    show "last (sort xs) \<in> set (sort xs)" using n by (rule last_in_set)
    fix y assume "y \<in> set (sort xs)"
    then obtain i where i: "i < length (sort xs)" "sort xs ! i = y" by (metis in_set_conv_nth)
    have "sort xs ! i \<le> sort xs ! (length (sort xs) - 1)"
      using i(1) by (intro sorted_nth_mono) auto
    then show "y \<le> last (sort xs)" using i n by (simp add: last_conv_nth)
  qed
  then show ?thesis by simp
qed

lemma latest_below_eight_digits:
  assumes names: "map fst fs = map checkpoint_name steps"
    and range: "\<forall>n \<in> set steps. 0 \<le> n \<and> n < 10 ^ 8"
    and some: "steps \<noteq> []"
  shows "last_checkpoint_path (Some fs) = Some (checkpoint_name (Max (set steps)))"
proof -
  have f: "filter matches_ckpt (map checkpoint_name steps) = map checkpoint_name steps"
    using range by (auto simp: filter_id_conv intro: matches_ckpt_checkpoint_name)
  have ne: "map checkpoint_name steps \<noteq> []" using some by simp
  have m: "Max (set steps) \<in> set steps" using some by (intro Max_in) auto
  have "Max (set (map checkpoint_name steps)) = checkpoint_name (Max (set steps))"
  proof (rule Max_eqI)
    show "finite (set (map checkpoint_name steps))" by simp
    show "checkpoint_name (Max (set steps)) \<in> set (map checkpoint_name steps)" using m by simp
    fix y assume "y \<in> set (map checkpoint_name steps)"
    then obtain n where n: "n \<in> set steps" "y = checkpoint_name n" by auto
    then have "n \<le> Max (set steps)" by simp
    moreover have "\<not> checkpoint_name (Max (set steps)) < checkpoint_name n"
      using checkpoint_name_less[of "Max (set steps)" n] range n(1) m calculation by auto
    ultimately show "y \<le> checkpoint_name (Max (set steps))" using n(2) by simp
  qed
  with last_sort_Max[OF ne] have "last (sort (map checkpoint_name steps))
      = checkpoint_name (Max (set steps))" by simp
  moreover have "sort (map checkpoint_name steps) \<noteq> []"
    using ne by (metis length_0_conv length_sort)
  ultimately show ?thesis
    by (simp add: last_checkpoint_path_def names f Let_def)
qed

lemma last_checkpoint_path_no_files:
  "last_checkpoint_path None = None" "last_checkpoint_path (Some []) = None"
  by (simp_all add: last_checkpoint_path_def)

lemma last_checkpoint_path_of_three:
  "map fst (the (files (saved_at [5000, 100, 250000])))
     = [''00005000.ckpt'', ''00000100.ckpt'', ''00250000.ckpt'']
   \<and> last_checkpoint_path (files (saved_at [5000, 100, 250000])) = Some (checkpoint_name 250000)"
  by code_simp

text \<open>
  C6. The format \<open>{step:08d}\<close> pads to eight digits and no further, so the names sort as the
  steps do only below step \<open>10^8\<close>. After saves at the steps 99995000 and 100000000 (both
  multiples of \<open>EVAL_FREQUENCY\<close>, both within the int32 counter) the directory holds
  \<open>99995000.ckpt\<close> and \<open>100000000.ckpt\<close>, and \<open>last_checkpoint_path\<close> returns the older one.
\<close>

theorem latest_checkpoint_after_eight_digits:
  "map fst (the (files (saved_at [99995000, 100000000])))
     = [''99995000.ckpt'', ''100000000.ckpt'']
   \<and> last_checkpoint_path (files (saved_at [99995000, 100000000]))
       = Some (checkpoint_name 99995000)"
  by code_simp

section \<open>The files a run writes\<close>

lemma saves_compute_validation_metrics:
  "compute_validation_metrics e d st = Inl (s, st') \<Longrightarrow>
     global_step (model st') = global_step (model st) \<and> saves st' = saves st"
  using compute_validation_metrics_frame[of e d st st' s] by simp










section \<open>Restoring the optimizers\<close>

lemma and_then_Inr_simp [simp]: "and_then (Inr a) f = f a"
  by (simp add: and_then_def)

lemma and_then_Inl_simp [simp]: "and_then (Inl x) f = Inl x"
  by (simp add: and_then_def)

text \<open>
  C5, as stated, fails: the checkpoint of a model with one optimizer loads into a model with
  two. The first optimizer takes the state of the checkpoint, the second keeps its own, with
  its scheduler; nothing is raised.
\<close>

theorem count_mismatch_loads_counterexample:
  "length (optimizers two_optimizers) = 2
   \<and> torch_load ''00000000.ckpt'' (save_model demo_state)
       = Inr (Dict [(''model'', Dict [(''global_step_buffer'', T (Tensor CPU (Ints [0]))),
                                      (''weight'', T (Tensor CPU (Floats [Finite 1])))]),
                    (''optimizers'', ListI [Dict [(''lr'', Other ''0.1'')]]),
                    (''lr_schedulers'', ListI [NoneV])])
   \<and> load_model_from_checkpoint demo_env ''00000000.ckpt''
         ((save_model demo_state)\<lparr>model := two_optimizers\<rparr>)
       = Inr ((save_model demo_state)
           \<lparr>model := two_optimizers\<lparr>optimizers :=
               [([(''lr'', Other ''0.1'')], None),
                ([(''lr'', Other ''0.7'')], Some [(''last_epoch'', Other ''3'')])]\<rparr>,
             stdout := [''Loading model from checkpoint: 00000000.ckpt'']\<rparr>)"
  by code_simp

text \<open>
  C5, amended. The restore pairs the optimizer and scheduler states of the checkpoint with the
  optimizers and schedulers of the model by position, as far as the shortest of the three
  lists goes, and does not compare the counts: each pair takes the optimizer state and,
  where the model has a scheduler, the scheduler state at its position; the optimizers beyond
  the shortest list keep their state and further entries of the checkpoint are ignored.
  The load does not fail on a difference of the counts (it does on an entry that is not a
  dict where one is loaded).
\<close>

theorem load_optimizers_pairs_by_position:
  assumes "\<forall>((opt, sched), od, sd) \<in> set (zip opts (zip opt_dicts sched_dicts)).
             is_dict od \<and> (sched \<noteq> None \<longrightarrow> is_dict sd)"
  shows "load_optimizers opts opt_dicts sched_dicts
     = Inr (map (\<lambda>((opt, sched), od, sd).
                  (entries_of od, case sched of None \<Rightarrow> None | Some s \<Rightarrow> Some (entries_of sd)))
              (zip opts (zip opt_dicts sched_dicts))
            @ drop (min (length opt_dicts) (length sched_dicts)) opts)"
  using assms
proof (induction opts opt_dicts sched_dicts rule: load_optimizers.induct)
  case (1 opt sched rest opt_dict opt_dicts sched_dict sched_dicts)
  from "1.prems" obtain od where od: "opt_dict = Dict od" by (cases opt_dict) auto
  show ?case
  proof (cases sched)
    case None
    with "1.prems" od "1.IH"(1)[OF od None] show ?thesis by simp
  next
    case (Some s)
    with "1.prems" obtain sd where sd: "sched_dict = Dict sd" by (cases sched_dict) auto
    with "1.prems" od Some "1.IH"(2)[OF od Some sd] show ?thesis by simp
  qed
qed simp_all

theorem load_optimizers_pairs_by_position_witness:
  "load_optimizers (optimizers two_optimizers) [Dict [(''lr'', Other ''0.1'')]] [NoneV]
     = Inr [([(''lr'', Other ''0.1'')], None),
            ([(''lr'', Other ''0.7'')], Some [(''last_epoch'', Other ''3'')])]
   \<and> length (optimizers two_optimizers) = 2"
proof -
  have h: "\<forall>((opt, sched), od, sd)
      \<in> set (zip (optimizers two_optimizers) (zip [Dict [(''lr'', Other ''0.1'')]] [NoneV])).
             is_dict od \<and> (sched \<noteq> None \<longrightarrow> is_dict sd)"
    by code_simp
  have o: "optimizers two_optimizers
     = [([(''lr'', Other ''0.5'')], None), ([(''lr'', Other ''0.7'')], Some [(''last_epoch'', Other ''3'')])]"
    by code_simp
  show ?thesis
    using load_optimizers_pairs_by_position [OF h] by (simp add: o)
qed

section \<open>Saving and loading\<close>

lemma move_to_cpu_absorbs:
  "move_state_dict_to_device (move_state_dict_to_device v c) True
     = move_state_dict_to_device v True"
proof (induction v)
  case (T t)
  then show ?case by (cases t) simp
next
  case (Dict kvs)
  then show ?case by (auto simp: map_prod_def split_beta snds.simps)
next
  case (ListI vs)
  then show ?case by simp
qed simp_all

lemma cpu_reloaded [simp]:
  "move_state_dict_to_device (reloaded e v) True = move_state_dict_to_device v True"
  by (simp add: reloaded_def move_to_cpu_absorbs)

lemma has_nan_move [simp]: "has_nan (move_state_dict_to_device v c) = has_nan v"
proof (cases v)
  case (T t)
  then show ?thesis by (cases t rule: any_isnan.cases) simp_all
qed simp_all

lemma has_nan_reloaded [simp]: "has_nan (reloaded e v) = has_nan v"
  by (simp add: reloaded_def)


lemma reloaded_ListI: "reloaded e (ListI vs) = ListI (map (reloaded e) vs)"
  by (simp add: reloaded_def)

lemma reloaded_NoneV [simp]: "reloaded e NoneV = NoneV"
  by (simp add: reloaded_def)












end
